theory Spec2Isabelle
  imports Main
begin

section \<open>JSON values and the object store\<close>

text \<open>
  The engine of \<^verbatim>\<open>src/engine.js\<close> (class \<^verbatim>\<open>VisualizerEngine\<close>) works on JSON data:
  the machine definition, the shared context and the event payloads. A JSON value is a
  tree; a JavaScript object is a tree held at a reference. Numbers are kept as integers:
  the engine never computes with them.
\<close>

datatype json =
    JNull
  | JBool bool
  | JNum int
  | JStr string
  | JArr "json list"
  | JObj "(string \<times> json) list"

text \<open>
  The contexts and payloads the engine holds are objects, and several claims are about
  which of them are the same object. They live in a store: a reference is an index into
  the list of allocated objects, allocation appends. One reference stands for one whole
  JSON tree, which is what \<^verbatim>\<open>JSON.parse\<close> returns: a tree that shares nothing with
  any other.
\<close>

type_synonym ref = nat
type_synonym store = "json list"

text \<open>JavaScript truthiness of a JSON value, as used by \<^verbatim>\<open>config.context || {}\<close>.\<close>

fun js_truthy :: "json \<Rightarrow> bool" where
  "js_truthy JNull = False"
| "js_truthy (JBool b) = b"
| "js_truthy (JNum n) = (n \<noteq> 0)"
| "js_truthy (JStr s) = (s \<noteq> [])"
| "js_truthy (JArr xs) = True"
| "js_truthy (JObj kvs) = True"

text \<open>
  \<^verbatim>\<open>JSON.parse(JSON.stringify(v))\<close>: a fresh object with the same structure as \<open>v\<close>.
  The result is the new reference and the extended store.
\<close>

definition json_clone :: "store \<Rightarrow> json \<Rightarrow> ref \<times> store" where
  "json_clone st v = (length st, st @ [v])"

text \<open>\<^verbatim>\<open>a || b\<close> on an optional string: \<open>a\<close> when it is present and not empty.\<close>

definition or_else :: "string option \<Rightarrow> string \<Rightarrow> string" where
  "or_else a b = (case a of None \<Rightarrow> b | Some s \<Rightarrow> if s \<noteq> [] then s else b)"

text \<open>A property key made of a nullable identifier: \<^verbatim>\<open>obj[null]\<close> reads the key \<^verbatim>\<open>"null"\<close>.\<close>

fun prop_key :: "string option \<Rightarrow> string" where
  "prop_key None = ''null''"
| "prop_key (Some s) = s"

section \<open>The data model\<close>

text \<open>
  The definition of a machine, as the JSON document gives it. An object of the definition
  is the list of its own properties in the order \<^verbatim>\<open>Object.entries\<close> enumerates them;
  \<open>map_of\<close> reads a property (the properties an object inherits from its prototype are
  not part of the model). Optional fields are options. What the engine writes to the
  console is not modelled.
\<close>

record transitionDef =
  t_to :: string
  t_label :: "string option"
  t_action :: "string option"

record stateDef =
  s_label :: "string option"
  s_on :: "(string \<times> transitionDef) list option"

record machineDef =
  d_id :: string
  d_initialState :: string
  d_context :: "json option"
  d_states :: "(string \<times> stateDef) list"

text \<open>
  What \<^verbatim>\<open>load\<close> can be handed: a falsy value, an object whose \<^verbatim>\<open>states\<close> field is
  falsy, or a definition with its states. Only the last is ever stored in \<^verbatim>\<open>this.config\<close>.
\<close>

datatype load_arg = Falsy | NoStates | Def machineDef

record historyEntry =
  h_timestamp :: string
  h_state :: "string option"
  h_event :: string
  h_context :: ref
  h_input :: ref

text \<open>The object \<^verbatim>\<open>getState()\<close> returns.\<close>

record projection =
  p_id :: "string option"
  p_data :: "stateDef option"
  p_context :: ref
  p_availableEvents :: "(string \<times> transitionDef) list option"
  p_mermaid :: string
  p_history :: "historyEntry list"

text \<open>
  The fields of \<^verbatim>\<open>VisualizerEngine\<close>, with the store of the objects they refer to and the
  trace of what \<^verbatim>\<open>notify()\<close> has handed to the subscribers (one projection for each call of
  \<^verbatim>\<open>notify\<close>; the subscribers only observe). \<open>ctx\<close> is the field \<^verbatim>\<open>this.context\<close>: a
  reference.
\<close>

record engine =
  config :: "machineDef option"
  currentStateId :: "string option"
  previousStateId :: "string option"
  ctx :: ref
  history :: "historyEntry list"
  lastEventId :: "string option"
  store :: store
  notified :: "projection list"

text \<open>The constructor: no configuration, an empty object as context, no history.\<close>

definition new_engine :: engine where
  "new_engine =
     \<lparr>config = None, currentStateId = None, previousStateId = None, ctx = 0,
      history = [], lastEventId = None, store = [JObj []], notified = []\<rparr>"

text \<open>The value of the live context: what \<^verbatim>\<open>this.context\<close> refers to.\<close>

definition live_context :: "engine \<Rightarrow> json" where
  "live_context e = store e ! ctx e"

text \<open>The value of the context a history entry holds.\<close>

definition entry_context :: "engine \<Rightarrow> historyEntry \<Rightarrow> json" where
  "entry_context e h = store e ! h_context h"

section \<open>Diagram generation\<close>

definition nl :: char where
  "nl = CHR 0x0A"

definition dq :: char where
  "dq = CHR 0x22"

fun digit_char :: "nat \<Rightarrow> char" where
  "digit_char n = char_of (48 + n)"

fun nat_str :: "nat \<Rightarrow> string" where
  "nat_str n = (if n < 10 then [digit_char n] else nat_str (n div 10) @ [digit_char (n mod 10)])"

declare nat_str.simps [simp del]

text \<open>A JavaScript integer in a template string.\<close>

definition num_str :: "int \<Rightarrow> string" where
  "num_str i = (if i < 0 then CHR ''-'' # nat_str (nat (- i)) else nat_str (nat i))"

text \<open>The class a node gets: the \<^verbatim>\<open>if / else if\<close> of the first loop.\<close>

definition node_class :: "engine \<Rightarrow> string \<Rightarrow> string option" where
  "node_class e sid =
     (if Some sid = currentStateId e then Some ''current''
      else if Some sid = previousStateId e then Some ''previous''
      else None)"

text \<open>The body of the first \<^verbatim>\<open>forEach\<close>: the text one state adds.\<close>

definition node_text :: "engine \<Rightarrow> string \<times> stateDef \<Rightarrow> string" where
  "node_text e = (\<lambda>(sid, data).
     ''    '' @ sid @ ''('' @ [dq] @ or_else (s_label data) sid @ [dq] @ '')'' @ [nl] @
     (case node_class e sid of
        None \<Rightarrow> []
      | Some c \<Rightarrow> ''    class '' @ sid @ '' '' @ c @ [nl]))"

text \<open>
  The second loop carries the text \<open>m\<close>, \<^verbatim>\<open>edgeIndex\<close> and \<^verbatim>\<open>activeEdgeIndex\<close>.
  \<open>edge_step\<close> is the body of the inner \<^verbatim>\<open>forEach\<close>, \<open>state_edges\<close> the body of the outer.
\<close>

type_synonym edge_acc = "string \<times> int \<times> int"

definition edge_step :: "engine \<Rightarrow> string \<Rightarrow> string \<times> transitionDef \<Rightarrow> edge_acc \<Rightarrow> edge_acc" where
  "edge_step e sourceId = (\<lambda>(eventId, trans) (m, edgeIndex, activeEdgeIndex).
     (m @ ''    '' @ sourceId @ '' -->|'' @ [dq] @ or_else (t_label trans) eventId @ [dq]
        @ ''| '' @ t_to trans @ [nl],
      edgeIndex + 1,
      if Some sourceId = previousStateId e \<and> Some eventId = lastEventId e
      then edgeIndex else activeEdgeIndex))"

definition state_edges :: "engine \<Rightarrow> string \<times> stateDef \<Rightarrow> edge_acc \<Rightarrow> edge_acc" where
  "state_edges e = (\<lambda>(sourceId, stateData) acc.
     case s_on stateData of
       None \<Rightarrow> acc
     | Some evs \<Rightarrow> fold (edge_step e sourceId) evs acc)"

definition mermaid_header :: string where
  "mermaid_header =
     ''flowchart LR'' @ [nl] @
     ''    classDef current fill:#6366f1,stroke:#fff,stroke-width:2px,color:#fff'' @ [nl] @
     ''    classDef previous fill:#10b981,stroke:#fff,stroke-width:1px,color:#fff'' @ [nl, nl]"

definition link_style :: "int \<Rightarrow> string" where
  "link_style i =
     ''    linkStyle '' @ num_str i @ '' stroke:#6366f1,stroke-width:4px,color:#6366f1'' @ [nl]"

text \<open>The state of the second loop when it ends: text, edge count, active edge index.\<close>

definition edge_pass :: "engine \<Rightarrow> machineDef \<Rightarrow> edge_acc" where
  "edge_pass e cfg =
     fold (state_edges e) (d_states cfg)
       (fold (\<lambda>s m. m @ node_text e s) (d_states cfg) mermaid_header @ [nl], 0, - 1)"

definition generateMermaid :: "engine \<Rightarrow> string" where
  "generateMermaid e =
     (case config e of
        None \<Rightarrow> []
      | Some cfg \<Rightarrow>
          (case edge_pass e cfg of
             (m, edgeIndex, activeEdgeIndex) \<Rightarrow>
               if activeEdgeIndex \<noteq> - 1 then m @ link_style activeEdgeIndex else m))"

section \<open>The operations of the engine\<close>

text \<open>
  \<^verbatim>\<open>getState()\<close>. The \<open>context\<close> field of the projection is \<^verbatim>\<open>this.context\<close> itself: the
  reference, not a copy. (\<open>p_history\<close> is the value of \<^verbatim>\<open>this.history\<close>; in the source it
  is the live array too.) A state identifier that is no key of \<open>states\<close> gives no
  \<open>data\<close> and the empty object as \<open>availableEvents\<close>.
\<close>

definition getState :: "engine \<Rightarrow> projection" where
  "getState e =
     (let stateData =
            (case config e of
               None \<Rightarrow> None
             | Some cfg \<Rightarrow> map_of (d_states cfg) (prop_key (currentStateId e)))
      in \<lparr>p_id = currentStateId e,
          p_data = stateData,
          p_context = ctx e,
          p_availableEvents = (case stateData of None \<Rightarrow> Some [] | Some sd \<Rightarrow> s_on sd),
          p_mermaid = generateMermaid e,
          p_history = history e\<rparr>)"

text \<open>\<^verbatim>\<open>notify()\<close>: the subscribers are handed the projection.\<close>

definition notify :: "engine \<Rightarrow> engine" where
  "notify e = e\<lparr>notified := notified e @ [getState e]\<rparr>"

text \<open>
  \<^verbatim>\<open>recordHistory(event, input = {})\<close>. The time of day is read from the clock: it is the
  argument \<open>ts\<close>. The entry holds a copy of the live context and a copy of the payload, the
  context copied first. A payload that is not given is the empty object.
\<close>

definition input_or_default :: "json option \<Rightarrow> json" where
  "input_or_default i = (case i of None \<Rightarrow> JObj [] | Some v \<Rightarrow> v)"

definition recordHistory :: "string \<Rightarrow> string \<Rightarrow> json option \<Rightarrow> engine \<Rightarrow> engine" where
  "recordHistory ts ev i e =
     (case json_clone (store e) (store e ! ctx e) of
        (c, st1) \<Rightarrow>
          (case json_clone st1 (input_or_default i) of
             (j, st2) \<Rightarrow>
               e\<lparr>history := history e @
                    [\<lparr>h_timestamp = ts, h_state = currentStateId e, h_event = ev,
                      h_context = c, h_input = j\<rparr>],
                 store := st2\<rparr>))"

text \<open>\<^verbatim>\<open>config.context || {}\<close>\<close>

definition initial_context :: "machineDef \<Rightarrow> json" where
  "initial_context cfg =
     (case d_context cfg of
        None \<Rightarrow> JObj []
      | Some v \<Rightarrow> if js_truthy v then v else JObj [])"

text \<open>\<^verbatim>\<open>load(config)\<close>\<close>

definition load :: "string \<Rightarrow> load_arg \<Rightarrow> engine \<Rightarrow> engine" where
  "load ts arg e =
     (case arg of
        Falsy \<Rightarrow> e
      | NoStates \<Rightarrow> e
      | Def cfg \<Rightarrow>
          (case json_clone (store e) (initial_context cfg) of
             (c, st1) \<Rightarrow>
               notify (recordHistory ts ''Initial State'' None
                 (e\<lparr>config := Some cfg, ctx := c, store := st1,
                    currentStateId := Some (d_initialState cfg),
                    previousStateId := None, lastEventId := None, history := []\<rparr>))))"

text \<open>
  An action is a string of JavaScript, run by \<^verbatim>\<open>new Function\<close>. What it computes is not
  part of this repository: it is the parameter \<open>run\<close>, which maps the action, the value of
  the working copy of the context and the payload to what the call does: it returns the
  new context, or it throws an error with a message (a syntax error of the action is
  thrown by \<^verbatim>\<open>new Function\<close> inside the same \<^verbatim>\<open>try\<close>). The new context is taken to be
  the working copy, the object the action was handed, with a JSON value; the action
  leaves the payload as it is, and it ends.
\<close>

datatype action_outcome = Returned json | Threw string

type_synonym action_runner = "string \<Rightarrow> json \<Rightarrow> json \<Rightarrow> action_outcome"

text \<open>What \<^verbatim>\<open>send\<close> returns: \<^verbatim>\<open>false\<close>, \<^verbatim>\<open>{ error: message }\<close> or \<^verbatim>\<open>true\<close>.\<close>

datatype send_result = RFalse | RError string | RTrue

text \<open>The exception of reading a property of \<^verbatim>\<open>null\<close> or \<^verbatim>\<open>undefined\<close>.\<close>

datatype js_error = TypeError

text \<open>\<^verbatim>\<open>if (transition.action)\<close>: the action to run, when the field is a non-empty string.\<close>

definition action_of :: "transitionDef \<Rightarrow> string option" where
  "action_of transition =
     (case t_action transition of
        None \<Rightarrow> None
      | Some a \<Rightarrow> if a \<noteq> [] then Some a else None)"

text \<open>The last part of \<^verbatim>\<open>send\<close>: "Move to next state".\<close>

definition move_to :: "string \<Rightarrow> string \<Rightarrow> json option \<Rightarrow> transitionDef \<Rightarrow> engine \<Rightarrow> engine" where
  "move_to ts eventId i transition e =
     notify (recordHistory ts eventId i
       (e\<lparr>previousStateId := currentStateId e,
          currentStateId := Some (t_to transition),
          lastEventId := Some eventId\<rparr>))"

text \<open>
  \<^verbatim>\<open>send(eventId, input = {})\<close>. \<^verbatim>\<open>this.config.states\<close> throws when no configuration is
  loaded, \<^verbatim>\<open>currentState.on\<close> throws when the current state identifier is no key of
  \<open>states\<close>, and \<^verbatim>\<open>currentState.on[eventId]\<close> throws when the state has no \<open>on\<close>: these are
  \<open>Inl TypeError\<close>, raised before any field is written.
\<close>

definition send ::
  "action_runner \<Rightarrow> string \<Rightarrow> engine \<Rightarrow> string \<Rightarrow> json option \<Rightarrow> js_error + (send_result \<times> engine)"
where
  "send run ts e eventId i =
     (case config e of
        None \<Rightarrow> Inl TypeError
      | Some cfg \<Rightarrow>
          (case map_of (d_states cfg) (prop_key (currentStateId e)) of
             None \<Rightarrow> Inl TypeError
           | Some currentState \<Rightarrow>
               (case s_on currentState of
                  None \<Rightarrow> Inl TypeError
                | Some evs \<Rightarrow>
                    (case map_of evs eventId of
                       None \<Rightarrow> Inr (RFalse, e)
                     | Some transition \<Rightarrow>
                         (case action_of transition of
                            None \<Rightarrow> Inr (RTrue, move_to ts eventId i transition e)
                          | Some a \<Rightarrow>
                              (case json_clone (store e) (store e ! ctx e) of
                                 (c, st1) \<Rightarrow>
                                   (case run a (store e ! ctx e) (input_or_default i) of
                                      Threw msg \<Rightarrow> Inr (RError msg, e\<lparr>store := st1\<rparr>)
                                    | Returned v \<Rightarrow>
                                        Inr (RTrue,
                                          move_to ts eventId i transition
                                            (e\<lparr>ctx := c, store := st1[c := v]\<rparr>)))))))))"

text \<open>\<^verbatim>\<open>undo()\<close>\<close>

definition undo :: "engine \<Rightarrow> engine" where
  "undo e =
     (if length (history e) \<le> 1 then e
      else
        (let hist = butlast (history e);
             restored = last hist
         in case json_clone (store e) (store e ! h_context restored) of
              (c, st1) \<Rightarrow>
                notify
                  (e\<lparr>history := hist,
                     currentStateId := h_state restored,
                     ctx := c, store := st1,
                     lastEventId :=
                       (if h_event restored = ''Initial State'' then None
                        else Some (h_event restored)),
                     previousStateId :=
                       (if length hist > 1 then h_state (hist ! (length hist - 2))
                        else None)\<rparr>)))"

text \<open>\<^verbatim>\<open>reset()\<close>\<close>

definition reset :: "string \<Rightarrow> engine \<Rightarrow> engine" where
  "reset ts e = (case config e of None \<Rightarrow> e | Some cfg \<Rightarrow> load ts (Def cfg) e)"

text \<open>
  A caller that holds a reference can write through it: this is the assignment
  \<^verbatim>\<open>snapshot.key = value\<close> of the code around the engine, on the object at \<open>r\<close>.
\<close>

definition write_through :: "ref \<Rightarrow> json \<Rightarrow> engine \<Rightarrow> engine" where
  "write_through r v e = e\<lparr>store := (store e)[r := v]\<rparr>"

text \<open>
  The states an engine can be in: a new engine, and what \<open>load\<close>, \<open>send\<close>, \<open>undo\<close> and
  \<open>reset\<close> make of one.
\<close>

inductive reachable :: "action_runner \<Rightarrow> engine \<Rightarrow> bool" for run :: action_runner where
  r_new: "reachable run new_engine"
| r_load: "reachable run e \<Longrightarrow> reachable run (load ts arg e)"
| r_send: "reachable run e \<Longrightarrow> send run ts e eventId i = Inr (r, e') \<Longrightarrow> reachable run e'"
| r_undo: "reachable run e \<Longrightarrow> reachable run (undo e)"
| r_reset: "reachable run e \<Longrightarrow> reachable run (reset ts e)"

section \<open>Example machines\<close>

text \<open>The coffee machine of the README.\<close>

definition brew :: transitionDef where
  "brew = \<lparr>t_to = ''brewing'', t_label = None, t_action = Some ''context.water -= 10''\<rparr>"

definition finish :: transitionDef where
  "finish = \<lparr>t_to = ''idle'', t_label = None, t_action = None\<rparr>"

definition idle :: stateDef where
  "idle = \<lparr>s_label = Some ''Ready'', s_on = Some [(''BREW'', brew)]\<rparr>"

definition brewing :: stateDef where
  "brewing = \<lparr>s_label = None, s_on = Some [(''FINISH'', finish)]\<rparr>"

definition coffee :: machineDef where
  "coffee =
     \<lparr>d_id = ''coffee-machine'', d_initialState = ''idle'',
      d_context = Some (JObj [(''water'', JNum 100)]),
      d_states = [(''idle'', idle), (''brewing'', brewing)]\<rparr>"

text \<open>
  A machine with an event named like the marker of the first history entry, an action that
  fails, a transition to a state that does not exist and a state without \<open>on\<close>.
\<close>

definition marked :: transitionDef where
  "marked = \<lparr>t_to = ''b'', t_label = None, t_action = None\<rparr>"

definition bad :: transitionDef where
  "bad = \<lparr>t_to = ''b'', t_label = None, t_action = Some ''context.x.y = 1''\<rparr>"

definition lost :: transitionDef where
  "lost = \<lparr>t_to = ''nowhere'', t_label = None, t_action = None\<rparr>"

definition go :: transitionDef where
  "go = \<lparr>t_to = ''c'', t_label = None, t_action = None\<rparr>"

definition probe_a :: stateDef where
  "probe_a =
     \<lparr>s_label = None,
      s_on = Some [(''Initial State'', marked), (''BAD'', bad), (''LOST'', lost)]\<rparr>"

definition probe_b :: stateDef where
  "probe_b = \<lparr>s_label = None, s_on = Some [(''GO'', go)]\<rparr>"

definition probe_c :: stateDef where
  "probe_c = \<lparr>s_label = Some ''End'', s_on = None\<rparr>"

definition probe :: machineDef where
  "probe =
     \<lparr>d_id = ''probe'', d_initialState = ''a'', d_context = None,
      d_states = [(''a'', probe_a), (''b'', probe_b), (''c'', probe_c)]\<rparr>"

text \<open>
  What the two actions of these machines do: the first lowers \<open>water\<close> by ten, the second
  assigns to a property of \<open>context.x\<close>, which is undefined.
\<close>

fun demo_run :: action_runner where
  "demo_run a (JObj [(k, JNum n)]) i =
     (if a = ''context.water -= 10'' \<and> k = ''water''
      then Returned (JObj [(k, JNum (n - 10))])
      else Threw ''context.x is undefined'')"
| "demo_run a c i = Threw ''context.x is undefined''"

definition coffee_loaded :: engine where
  "coffee_loaded = load ''10:00:00'' (Def coffee) new_engine"

definition probe_loaded :: engine where
  "probe_loaded = load ''10:00:00'' (Def probe) new_engine"

text \<open>The probe after the event named \<^verbatim>\<open>Initial State\<close>, and after \<^verbatim>\<open>GO\<close> then.\<close>

definition probe_marked :: engine where
  "probe_marked = move_to ''10:00:01'' ''Initial State'' None marked probe_loaded"

definition probe_gone :: engine where
  "probe_gone = move_to ''10:00:02'' ''GO'' None go probe_marked"

text \<open>The coffee machine after \<^verbatim>\<open>BREW\<close>: the action has made the working copy the context.\<close>

definition coffee_brewed :: engine where
  "coffee_brewed =
     move_to ''10:00:01'' ''BREW'' None brew
       (coffee_loaded\<lparr>ctx := length (store coffee_loaded),
          store := store coffee_loaded @ [JObj [(''water'', JNum 90)]]\<rparr>)"

section \<open>Notions the properties are stated with\<close>










text \<open>
  What holds of every engine between two calls: the references are allocated, no two of
  the live context and the contexts and payloads of the history are the same object, the
  last entry of the history records the current state and a context equal to the live one,
  and the previous state is the state of the entry before the last.
\<close>

definition engine_inv :: "engine \<Rightarrow> bool" where
  "engine_inv e \<longleftrightarrow>
     ctx e < length (store e) \<and>
     (\<forall>h \<in> set (history e). h_context h < length (store e) \<and> h_input h < length (store e)) \<and>
     distinct (ctx e # map h_context (history e) @ map h_input (history e)) \<and>
     (config e \<noteq> None \<longrightarrow>
        history e \<noteq> [] \<and> h_state (last (history e)) = currentStateId e \<and>
        store e ! h_context (last (history e)) = store e ! ctx e) \<and>
     previousStateId e =
       (if 1 < length (history e) then h_state (history e ! (length (history e) - 2))
        else None)"

section \<open>Projections of the operations\<close>

lemma notify_simps [simp]:
  "config (notify e) = config e"
  "currentStateId (notify e) = currentStateId e"
  "previousStateId (notify e) = previousStateId e"
  "ctx (notify e) = ctx e"
  "history (notify e) = history e"
  "lastEventId (notify e) = lastEventId e"
  "store (notify e) = store e"
  "notified (notify e) = notified e @ [getState e]"
  by (simp_all add: notify_def)

lemma recordHistory_simps [simp]:
  "config (recordHistory ts ev i e) = config e"
  "currentStateId (recordHistory ts ev i e) = currentStateId e"
  "previousStateId (recordHistory ts ev i e) = previousStateId e"
  "ctx (recordHistory ts ev i e) = ctx e"
  "lastEventId (recordHistory ts ev i e) = lastEventId e"
  "notified (recordHistory ts ev i e) = notified e"
  "store (recordHistory ts ev i e) = store e @ [store e ! ctx e, input_or_default i]"
  "history (recordHistory ts ev i e) = history e @
     [\<lparr>h_timestamp = ts, h_state = currentStateId e, h_event = ev,
       h_context = length (store e), h_input = Suc (length (store e))\<rparr>]"
  by (simp_all add: recordHistory_def json_clone_def)

lemma move_to_simps [simp]:
  "config (move_to ts ev i tr e) = config e"
  "currentStateId (move_to ts ev i tr e) = Some (t_to tr)"
  "previousStateId (move_to ts ev i tr e) = currentStateId e"
  "ctx (move_to ts ev i tr e) = ctx e"
  "lastEventId (move_to ts ev i tr e) = Some ev"
  "store (move_to ts ev i tr e) = store e @ [store e ! ctx e, input_or_default i]"
  "history (move_to ts ev i tr e) = history e @
     [\<lparr>h_timestamp = ts, h_state = Some (t_to tr), h_event = ev,
       h_context = length (store e), h_input = Suc (length (store e))\<rparr>]"
  "length (notified (move_to ts ev i tr e)) = Suc (length (notified e))"
  by (simp_all add: move_to_def)

lemma load_Def_simps [simp]:
  "config (load ts (Def cfg) e) = Some cfg"
  "currentStateId (load ts (Def cfg) e) = Some (d_initialState cfg)"
  "previousStateId (load ts (Def cfg) e) = None"
  "lastEventId (load ts (Def cfg) e) = None"
  "ctx (load ts (Def cfg) e) = length (store e)"
  "store (load ts (Def cfg) e) =
     store e @ [initial_context cfg, initial_context cfg, JObj []]"
  "history (load ts (Def cfg) e) =
     [\<lparr>h_timestamp = ts, h_state = Some (d_initialState cfg), h_event = ''Initial State'',
       h_context = Suc (length (store e)), h_input = Suc (Suc (length (store e)))\<rparr>]"
  "length (notified (load ts (Def cfg) e)) = Suc (length (notified e))"
  by (simp_all add: load_def json_clone_def input_or_default_def nth_append)

lemma load_other [simp]: "load ts Falsy e = e" "load ts NoStates e = e"
  by (simp_all add: load_def)

lemma undo_short [simp]: "length (history e) \<le> 1 \<Longrightarrow> undo e = e"
  by (simp add: undo_def)

lemma undo_simps:
  assumes "1 < length (history e)"
  shows "history (undo e) = butlast (history e)"
    and "currentStateId (undo e) = h_state (last (butlast (history e)))"
    and "ctx (undo e) = length (store e)"
    and "store (undo e) = store e @ [store e ! h_context (last (butlast (history e)))]"
    and "lastEventId (undo e) =
          (if h_event (last (butlast (history e))) = ''Initial State'' then None
           else Some (h_event (last (butlast (history e)))))"
    and "previousStateId (undo e) =
          (if 1 < length (butlast (history e))
           then h_state (butlast (history e) ! (length (butlast (history e)) - 2)) else None)"
    and "config (undo e) = config e"
    and "length (notified (undo e)) = Suc (length (notified e))"
  using assms by (simp_all add: undo_def json_clone_def Let_def)

lemma send_RTrue_shape:
  assumes "send run ts e ev i = Inr (RTrue, e')"
  shows "\<exists>c j. history e' = history e @
            [\<lparr>h_timestamp = ts, h_state = currentStateId e', h_event = ev,
              h_context = c, h_input = j\<rparr>]"
    and "previousStateId e' = currentStateId e"
    and "lastEventId e' = Some ev"
    and "config e' = config e"
  using assms
  by (auto simp add: send_def json_clone_def
           split: option.splits action_outcome.splits)

text \<open>The runs of the example machines.\<close>

lemma probe_marked_send:
  "send demo_run ''10:00:01'' probe_loaded ''Initial State'' None = Inr (RTrue, probe_marked)"
  by (simp add: send_def probe_loaded_def probe_def probe_a_def marked_def action_of_def
        probe_marked_def)

lemma probe_gone_send:
  "send demo_run ''10:00:02'' probe_marked ''GO'' None = Inr (RTrue, probe_gone)"
  by (simp add: send_def probe_loaded_def probe_def probe_b_def marked_def go_def action_of_def
        probe_marked_def probe_gone_def)

lemma coffee_brewed_send:
  "send demo_run ''10:00:01'' coffee_loaded ''BREW'' None = Inr (RTrue, coffee_brewed)"
  by (simp add: send_def coffee_loaded_def coffee_def idle_def brew_def action_of_def
        coffee_brewed_def json_clone_def initial_context_def new_engine_def input_or_default_def)

section \<open>Event application\<close>







section \<open>Loading\<close>

text \<open>
  C7. After \<open>load\<close> of a definition with states, whose context is absent or a mapping:
  the history has exactly one entry, its event is \<^verbatim>\<open>Initial State\<close>, the context of the
  entry and the live context are two objects with the value of the context of the
  definition (the empty object when it is absent), the current state is the initial state
  of the definition, and the previous state and the last event are null.
\<close>

theorem load_postcondition:
  assumes "d_context d = None \<or> (\<exists>kvs. d_context d = Some (JObj kvs))"
  shows "length (history (load ts (Def d) e)) = 1
     \<and> h_event (history (load ts (Def d) e) ! 0) = ''Initial State''
     \<and> h_state (history (load ts (Def d) e) ! 0) = Some (d_initialState d)
     \<and> entry_context (load ts (Def d) e) (history (load ts (Def d) e) ! 0)
         = (case d_context d of None \<Rightarrow> JObj [] | Some v \<Rightarrow> v)
     \<and> live_context (load ts (Def d) e)
         = (case d_context d of None \<Rightarrow> JObj [] | Some v \<Rightarrow> v)
     \<and> h_context (history (load ts (Def d) e) ! 0) \<noteq> ctx (load ts (Def d) e)
     \<and> currentStateId (load ts (Def d) e) = Some (d_initialState d)
     \<and> previousStateId (load ts (Def d) e) = None
     \<and> lastEventId (load ts (Def d) e) = None
     \<and> config (load ts (Def d) e) = Some d"
  using assms
  by (auto simp add: entry_context_def live_context_def initial_context_def nth_append)

theorem load_postcondition_witness:
  "(d_context coffee = None \<or> (\<exists>kvs. d_context coffee = Some (JObj kvs)))
   \<and> length (history coffee_loaded) = 1
   \<and> h_event (history coffee_loaded ! 0) = ''Initial State''
   \<and> entry_context coffee_loaded (history coffee_loaded ! 0) = JObj [(''water'', JNum 100)]
   \<and> live_context coffee_loaded = JObj [(''water'', JNum 100)]
   \<and> currentStateId coffee_loaded = Some ''idle''
   \<and> previousStateId coffee_loaded = None
   \<and> lastEventId coffee_loaded = None"
proof -
  have h: "d_context coffee = None \<or> (\<exists>kvs. d_context coffee = Some (JObj kvs))"
    by (simp add: coffee_def)
  have c: "d_context coffee = Some (JObj [(''water'', JNum 100)])"
    by (simp add: coffee_def)
  have i: "d_initialState coffee = ''idle''"
    by (simp add: coffee_def)
  show ?thesis
    unfolding coffee_loaded_def
    using h load_postcondition [OF h, of "''10:00:00''" new_engine] by (simp add: c i)
qed

section \<open>Undo\<close>

text \<open>
  C10. The event is named \<^verbatim>\<open>Initial State\<close>, the transition is taken and another one
  after it. \<open>undo\<close> then makes the entry of the first transition the last of the history
  and restores its state, but the last event becomes null, not the event
  \<^verbatim>\<open>Initial State\<close> that \<open>send\<close> had set: \<open>undo\<close> takes the name for the marker of \<open>load\<close>.
\<close>

theorem undo_sentinel_collision:
  assumes "send run ts1 e ''Initial State'' i1 = Inr (RTrue, e1)"
    and "send run ts2 e1 ev2 i2 = Inr (RTrue, e2)"
  shows "lastEventId e1 = Some ''Initial State''
     \<and> h_event (last (history (undo e2))) = ''Initial State''
     \<and> currentStateId (undo e2) = currentStateId e1
     \<and> lastEventId (undo e2) = None"
proof -
  obtain c1 j1 where h1: "history e1 = history e @
      [\<lparr>h_timestamp = ts1, h_state = currentStateId e1, h_event = ''Initial State'',
        h_context = c1, h_input = j1\<rparr>]"
    using send_RTrue_shape(1) [OF assms(1)] by blast
  obtain c2 j2 where h2: "history e2 = history e1 @
      [\<lparr>h_timestamp = ts2, h_state = currentStateId e2, h_event = ev2,
        h_context = c2, h_input = j2\<rparr>]"
    using send_RTrue_shape(1) [OF assms(2)] by blast
  have len: "1 < length (history e2)"
    by (simp add: h1 h2)
  have b: "butlast (history e2) = history e1"
    by (simp add: h2)
  have l: "last (history e1) =
      \<lparr>h_timestamp = ts1, h_state = currentStateId e1, h_event = ''Initial State'',
        h_context = c1, h_input = j1\<rparr>"
    by (simp add: h1)
  show ?thesis
    using send_RTrue_shape(3) [OF assms(1)]
    by (simp add: undo_simps [OF len] b l)
qed

theorem undo_sentinel_collision_witness:
  "send demo_run ''10:00:01'' probe_loaded ''Initial State'' None = Inr (RTrue, probe_marked)
   \<and> send demo_run ''10:00:02'' probe_marked ''GO'' None = Inr (RTrue, probe_gone)
   \<and> lastEventId probe_marked = Some ''Initial State''
   \<and> h_event (last (history (undo probe_gone))) = ''Initial State''
   \<and> currentStateId (undo probe_gone) = Some ''b''
   \<and> lastEventId (undo probe_gone) = None"
proof -
  have cur: "currentStateId probe_marked = Some ''b''"
    by (simp add: probe_marked_def marked_def)
  show ?thesis
    using undo_sentinel_collision [OF probe_marked_send probe_gone_send] 
      probe_marked_send probe_gone_send cur
    by simp
qed

section \<open>Exceptions of send\<close>

text \<open>
  C3. \<open>send\<close> raises: on an engine that was never loaded (\<^verbatim>\<open>this.config\<close> is null), when
  the current state is no key of \<open>states\<close> after a transition to a target that does not
  exist was taken, and in a state that has no \<open>on\<close>. The exception is a
  \<^verbatim>\<open>TypeError\<close> that no \<^verbatim>\<open>try\<close> of the engine catches.
\<close>

theorem send_raises_type_error:
  "send demo_run ''10:00:01'' new_engine ''BREW'' None = Inl TypeError
   \<and> (\<exists>e1. send demo_run ''10:00:01'' probe_loaded ''LOST'' None = Inr (RTrue, e1)
        \<and> currentStateId e1 = Some ''nowhere''
        \<and> send demo_run ''10:00:02'' e1 ''LOST'' None = Inl TypeError)
   \<and> currentStateId probe_gone = Some ''c''
   \<and> send demo_run ''10:00:03'' probe_gone ''GO'' None = Inl TypeError"
  by (simp add: send_def new_engine_def probe_loaded_def probe_def probe_a_def probe_b_def
        probe_c_def lost_def go_def probe_gone_def probe_marked_def action_of_def)

section \<open>The invariant of the engine\<close>

lemma inv_new: "engine_inv new_engine"
  by (simp add: engine_inv_def new_engine_def)

lemma inv_load:
  assumes "engine_inv e" shows "engine_inv (load ts arg e)"
proof (cases arg)
  case (Def cfg)
  show ?thesis
    unfolding Def engine_inv_def
    by (simp add: nth_append)
qed (use assms in simp_all)

lemma inv_move_to:
  assumes "engine_inv e" and "config e \<noteq> None"
  shows "engine_inv (move_to ts ev i tr e)"
proof -
  from assms have ne: "0 < length (history e)"
    and st: "h_state (last (history e)) = currentStateId e"
    and v: "ctx e < length (store e)"
    and hv: "\<forall>h \<in> set (history e). h_context h < length (store e) \<and> h_input h < length (store e)"
    and d: "distinct (ctx e # map h_context (history e) @ map h_input (history e))"
    by (simp_all add: engine_inv_def)
  have st': "h_state (history e ! (length (history e) - Suc 0)) = currentStateId e"
    using ne st by (simp add: last_conv_nth)
  show ?thesis
    unfolding engine_inv_def
    using v hv d ne st'
    by (auto simp add: nth_append)
qed

lemma inv_store_ctx:
  assumes "engine_inv e" and "config e \<noteq> None"
  shows "engine_inv (move_to ts ev i tr (e\<lparr>ctx := length (store e), store := store e @ [v]\<rparr>))"
proof -
  from assms have ne: "0 < length (history e)"
    and st: "h_state (last (history e)) = currentStateId e"
    and v: "ctx e < length (store e)"
    and hv: "\<forall>h \<in> set (history e). h_context h < length (store e) \<and> h_input h < length (store e)"
    and d: "distinct (ctx e # map h_context (history e) @ map h_input (history e))"
    by (simp_all add: engine_inv_def)
  have st': "h_state (history e ! (length (history e) - Suc 0)) = currentStateId e"
    using ne st by (simp add: last_conv_nth)
  show ?thesis
    unfolding engine_inv_def
    using v hv d ne st'
    by (auto simp add: nth_append)
qed

lemma inv_garbage:
  assumes "engine_inv e" shows "engine_inv (e\<lparr>store := store e @ [v]\<rparr>)"
  using assms by (auto simp add: engine_inv_def nth_append)

lemma inv_send:
  assumes "engine_inv e" and "send run ts e ev i = Inr (r, e')"
  shows "engine_inv e'"
  using assms
  by (auto simp add: send_def json_clone_def inv_move_to inv_store_ctx inv_garbage
        split: option.splits action_outcome.splits)

lemma two_last:
  assumes "1 < length xs"
  obtains hs y x where "xs = hs @ [y, x]"
proof -
  from assms obtain ys x where a: "xs = ys @ [x]"
    by (cases xs rule: rev_cases) auto
  with assms obtain hs y where "ys = hs @ [y]"
    by (cases ys rule: rev_cases) auto
  with a that show thesis by simp
qed

lemma inv_undo:
  assumes "engine_inv e" shows "engine_inv (undo e)"
proof (cases "length (history e) \<le> 1")
  case True
  then show ?thesis using assms by simp
next
  case False
  then have len: "1 < length (history e)" by simp
  then obtain hs y x where h: "history e = hs @ [y, x]"
    by (rule two_last)
  have b: "butlast (history e) = hs @ [y]"
    by (simp add: h butlast_append)
  show ?thesis
    using assms unfolding engine_inv_def undo_simps [OF len] b
    by (auto simp add: h nth_append)
qed

lemma inv_reset:
  assumes "engine_inv e" shows "engine_inv (reset ts e)"
  using assms by (simp add: reset_def inv_load split: option.splits)

lemma reachable_inv: "reachable run e \<Longrightarrow> engine_inv e"
  by (induction rule: reachable.induct)
     (simp_all add: inv_new inv_load inv_send inv_undo inv_reset)


lemma reachable_coffee_loaded: "reachable run coffee_loaded"
  unfolding coffee_loaded_def by (rule r_load) (rule r_new)

section \<open>Undo after send\<close>



section \<open>Aliasing of the context\<close>

text \<open>
  C2, as stated, fails: the \<open>context\<close> of the projection that \<open>getState\<close> returns is the
  live context itself, so a write through it changes the context of the engine. Here the
  caller sets \<open>water\<close> to 0 in the snapshot of the loaded coffee machine, and the live
  context, which held 100, holds 0.
\<close>

theorem getState_context_is_live:
  "p_context (getState coffee_loaded) = ctx coffee_loaded
   \<and> live_context coffee_loaded = JObj [(''water'', JNum 100)]
   \<and> live_context (write_through (p_context (getState coffee_loaded))
        (JObj [(''water'', JNum 0)]) coffee_loaded) = JObj [(''water'', JNum 0)]"
  by (simp add: getState_def Let_def live_context_def write_through_def coffee_loaded_def
        new_engine_def initial_context_def coffee_def)

text \<open>
  C2, amended. In every engine that the operations have produced, the live context and
  the contexts and payloads of the history entries are pairwise different objects; the
  context of the last entry has the value of the live context; a write through the
  context of one entry changes neither the live context nor the context of another entry.
  The \<open>context\<close> of the projection of \<open>getState\<close> is the reference of the live context.
\<close>

theorem history_contexts_independent:
  assumes "reachable run e"
  shows "distinct (ctx e # map h_context (history e) @ map h_input (history e))
     \<and> (config e \<noteq> None \<longrightarrow> entry_context e (last (history e)) = live_context e)
     \<and> (\<forall>k < length (history e).
          live_context (write_through (h_context (history e ! k)) v e) = live_context e
          \<and> (\<forall>k' < length (history e). k' \<noteq> k \<longrightarrow>
                entry_context (write_through (h_context (history e ! k)) v e) (history e ! k')
                  = entry_context e (history e ! k')))
     \<and> p_context (getState e) = ctx e"
proof -
  have inv: "engine_inv e"
    using assms by (rule reachable_inv)
  then have d: "distinct (ctx e # map h_context (history e) @ map h_input (history e))"
    and t: "config e \<noteq> None \<longrightarrow> store e ! h_context (last (history e)) = store e ! ctx e"
    by (simp_all add: engine_inv_def)
  from d have dc: "distinct (map h_context (history e))"
    and nc: "ctx e \<notin> set (map h_context (history e))"
    by simp_all
  have a: "h_context (history e ! k) \<noteq> ctx e" if "k < length (history e)" for k
    using nc that by (metis length_map nth_map nth_mem)
  have b: "h_context (history e ! k') \<noteq> h_context (history e ! k)"
    if "k < length (history e)" "k' < length (history e)" "k' \<noteq> k" for k k'
    using dc that by (simp add: distinct_conv_nth)
  show ?thesis
    using d t a b
    by (simp add: live_context_def entry_context_def write_through_def getState_def Let_def)
qed

theorem history_contexts_independent_witness:
  "reachable demo_run coffee_brewed
   \<and> distinct (ctx coffee_brewed # map h_context (history coffee_brewed)
        @ map h_input (history coffee_brewed))
   \<and> entry_context coffee_brewed (last (history coffee_brewed)) = JObj [(''water'', JNum 90)]
   \<and> live_context (write_through (h_context (history coffee_brewed ! 1))
        (JObj [(''water'', JNum 0)]) coffee_brewed) = JObj [(''water'', JNum 90)]
   \<and> entry_context (write_through (h_context (history coffee_brewed ! 1))
        (JObj [(''water'', JNum 0)]) coffee_brewed) (history coffee_brewed ! 0)
       = JObj [(''water'', JNum 100)]"
proof -
  have r: "reachable demo_run coffee_brewed"
    using reachable_coffee_loaded coffee_brewed_send by (rule r_send)
  have lb: "live_context coffee_brewed = JObj [(''water'', JNum 90)]"
    by (simp add: live_context_def coffee_brewed_def)
  have e0: "entry_context coffee_brewed (history coffee_brewed ! 0) = JObj [(''water'', JNum 100)]"
    by (simp add: entry_context_def coffee_brewed_def coffee_loaded_def new_engine_def
          initial_context_def coffee_def)
  have len: "length (history coffee_brewed) = 2"
    by (simp add: coffee_brewed_def coffee_loaded_def)
  have c: "config coffee_brewed \<noteq> None"
    by (simp add: coffee_brewed_def coffee_loaded_def)
  show ?thesis
    using history_contexts_independent [OF r, of "JObj [(''water'', JNum 0)]"] r lb e0 len c
    by simp
qed

section \<open>The diagram as a function of the enumeration\<close>


























section \<open>The highlighted edge\<close>



section \<open>The classes of the nodes\<close>



end
